theory Spec2Isabelle
  imports Main
begin

section \<open>Text\<close>

text \<open>
  A Python \<open>str\<close> is modelled as a \<open>string\<close> whose characters are code points
  below 256. On that range \<open>str.isspace\<close>, \<open>str.lower\<close> and the case folding of
  \<open>re.IGNORECASE\<close> are the functions below; code points from 256 on are outside the
  model.
\<close>

definition is_space :: "char \<Rightarrow> bool" where
  "is_space c =
     (let n = (of_char c :: nat)
      in (9 \<le> n \<and> n \<le> 13) \<or> (28 \<le> n \<and> n \<le> 32) \<or> n = 133 \<or> n = 160)"

definition lower_char :: "char \<Rightarrow> char" where
  "lower_char c =
     (let n = (of_char c :: nat)
      in if (65 \<le> n \<and> n \<le> 90) \<or> (192 \<le> n \<and> n \<le> 222 \<and> n \<noteq> 215)
         then char_of (n + 32) else c)"

definition lower :: "string \<Rightarrow> string" where
  "lower s = map lower_char s"

definition strip :: "string \<Rightarrow> string" where
  "strip s = rev (dropWhile is_space (rev (dropWhile is_space s)))"

text \<open>\<open>needle in text\<close> on strings: the needle occurs at some position of the text.\<close>

fun starts_with :: "string \<Rightarrow> string \<Rightarrow> bool" where
  "starts_with [] s = True"
| "starts_with (a # l) [] = False"
| "starts_with (a # l) (c # s) = (a = c \<and> starts_with l s)"

fun contains :: "string \<Rightarrow> string \<Rightarrow> bool" where
  "contains needle [] = starts_with needle []"
| "contains needle (c # s) = (starts_with needle (c # s) \<or> contains needle s)"

section \<open>Data model\<close>

record CheckResult =
  input_value :: string
  status :: string
  kind :: string
  visibility :: string
  verified :: "bool option"
  requires_approval :: "bool option"
  member_count :: "int option"
  title :: "string option"
  username :: "string option"
  extra :: "string option"

text \<open>
  Modelled from the spec: the remote entity classes (\<open>types.Channel\<close>, \<open>types.Chat\<close>,
  \<open>types.User\<close>) belong to the client library, which is not part of the repository.
  The spec's RemoteEntity gives their fields; \<open>title\<close> is added where the adapters read
  it. A flag is a \<open>bool option\<close>, \<open>None\<close> standing for an attribute that is missing or
  holds Python's \<open>None\<close>. \<open>OtherEntity\<close> is any other shape; the adapters read its
  \<open>title\<close> and \<open>username\<close> through \<open>getattr\<close> with a default, so it carries the
  title (if any) and the username attribute, whose outer \<open>None\<close> says that the attribute
  is missing.
\<close>

datatype entity =
    Channel (megagroup: "bool option") (channel_username: "string option")
            (channel_verified: "bool option") (channel_title: "string option")
  | Chat (chat_verified: "bool option") (chat_title: "string option")
  | User (user_username: "string option") (user_verified: "bool option")
  | OtherEntity (other_title: "string option") (other_username: "string option option")

text \<open>Python truthiness of a flag and of an optional string.\<close>

definition truthy :: "bool option \<Rightarrow> bool" where
  "truthy b = (b = Some True)"

definition nonempty :: "string option \<Rightarrow> bool" where
  "nonempty s = (case s of None \<Rightarrow> False | Some x \<Rightarrow> x \<noteq> [])"

section \<open>Entity classifier\<close>

fun classify_chat :: "entity \<Rightarrow> string \<times> string \<times> bool option" where
  "classify_chat (Channel mg un vf tt) =
     (if truthy mg then ''supergroup'' else ''channel'',
      if nonempty un then ''public'' else ''private'',
      Some (truthy vf))"
| "classify_chat (Chat vf tt) = (''group'', ''private'', Some (truthy vf))"
| "classify_chat (User un vf) =
     (''user'', if nonempty un then ''public'' else ''private'', Some (truthy vf))"
| "classify_chat (OtherEntity tt un) = (''unknown'', ''unknown'', None)"

section \<open>Identifier parser\<close>

text \<open>
  The two patterns of the source, compiled with \<open>re.IGNORECASE\<close>:
  \<^verbatim>\<open>INVITE_RE   = (?:https?://)?t\.me/(?:joinchat/|\+)([A-Za-z0-9_-]{16,})|tg://join\?invite=([A-Za-z0-9_-]{16,})\<close>
  \<^verbatim>\<open>USERNAME_RE = (?:https?://)?t\.me/([A-Za-z0-9_]{5,32})|@([A-Za-z0-9_]{5,32})\<close>
  A matcher takes the text from the current position on and returns what the match
  captures, trying the alternatives in the order in which the backtracking engine tries
  them. \<open>lit\<close> consumes a literal (given in lower case) without regard to case and
  returns the rest of the text.
\<close>

definition is_handle_char :: "char \<Rightarrow> bool" where
  "is_handle_char c =
     (c \<in> set ''ABCDEFGHIJKLMNOPQRSTUVWXYZabcdefghijklmnopqrstuvwxyz0123456789_'')"

definition is_code_char :: "char \<Rightarrow> bool" where
  "is_code_char c = (is_handle_char c \<or> c = CHR ''-'')"

fun lit :: "string \<Rightarrow> string \<Rightarrow> string option" where
  "lit [] s = Some s"
| "lit (a # l) [] = None"
| "lit (a # l) (c # s) = (if lower_char c = a then lit l s else None)"

definition orelse :: "'a option \<Rightarrow> 'a option \<Rightarrow> 'a option" where
  "orelse x y = (case x of Some v \<Rightarrow> Some v | None \<Rightarrow> y)"

definition andthen :: "'a option \<Rightarrow> ('a \<Rightarrow> 'b option) \<Rightarrow> 'b option" where
  "andthen x f = (case x of None \<Rightarrow> None | Some v \<Rightarrow> f v)"

text \<open>\<open>(?:https?://)?\<close> followed by \<open>k\<close>: with \<open>https://\<close>, with \<open>http://\<close>, or without.\<close>

definition opt_scheme :: "(string \<Rightarrow> 'a option) \<Rightarrow> string \<Rightarrow> 'a option" where
  "opt_scheme k s =
     orelse (andthen (lit ''https://'' s) k)
       (orelse (andthen (lit ''http://'' s) k) (k s))"

text \<open>
  \<open>([A-Za-z0-9_-]{16,})\<close> and \<open>([A-Za-z0-9_]{5,32})\<close> end their alternative, so the
  greedy quantifier keeps the longest run it may take.
\<close>

definition invite_code :: "string \<Rightarrow> string option" where
  "invite_code s =
     (let c = takeWhile is_code_char s in if 16 \<le> length c then Some c else None)"

definition handle :: "string \<Rightarrow> string option" where
  "handle s =
     (let h = take 32 (takeWhile is_handle_char s) in if 5 \<le> length h then Some h else None)"

definition invite_link :: "string \<Rightarrow> string option" where
  "invite_link s =
     andthen (lit ''t.me/'' s)
       (\<lambda>r. orelse (andthen (lit ''joinchat/'' r) invite_code)
                   (andthen (lit ''+'' r) invite_code))"

definition invite_at :: "string \<Rightarrow> string option" where
  "invite_at s =
     orelse (opt_scheme invite_link s) (andthen (lit ''tg://join?invite='' s) invite_code)"

definition username_at :: "string \<Rightarrow> string option" where
  "username_at s =
     orelse (opt_scheme (\<lambda>r. andthen (lit ''t.me/'' r) handle) s)
            (andthen (lit ''@'' s) handle)"

text \<open>
  \<open>search\<close>: the match at the leftmost position that has one. The value is
  \<open>m.group(1) or m.group(2)\<close>; a captured group is never empty, so this is the group
  of the alternative that matched.
\<close>

fun invite_search :: "string \<Rightarrow> string option" where
  "invite_search [] = invite_at []"
| "invite_search (c # s) = orelse (invite_at (c # s)) (invite_search s)"

fun username_search :: "string \<Rightarrow> string option" where
  "username_search [] = username_at []"
| "username_search (c # s) = orelse (username_at (c # s)) (username_search s)"

definition parse_input :: "string \<Rightarrow> string \<times> string option" where
  "parse_input raw =
     (let v = strip raw
      in if v = [] then (''unknown'', None)
         else (case invite_search v of
                 Some code \<Rightarrow> (''invite'', Some code)
               | None \<Rightarrow>
                   (case username_search v of
                      Some name \<Rightarrow> (''username'', Some name)
                    | None \<Rightarrow> (''unknown'', None))))"

section \<open>The remote collaborator\<close>

text \<open>
  A fault is an exception object of a class that derives from \<open>Exception\<close>, the class
  that the last handler of each adapter and the handler of the batch driver name.
  \<open>type_name\<close> is \<open>type(e).__name__\<close> and \<open>message\<close> is \<open>str(e)\<close>. What does not
  derive from \<open>Exception\<close> (an interpreter exit, a keyboard interrupt, the cancellation
  of the task) ends the whole run and is outside the model.
\<close>

datatype exc_class = UsernameInvalidError | UsernameNotOccupiedError | OtherError string

datatype exc = Exc (exc_class: exc_class) (message: string)

fun type_name :: "exc_class \<Rightarrow> string" where
  "type_name UsernameInvalidError = ''UsernameInvalidError''"
| "type_name UsernameNotOccupiedError = ''UsernameNotOccupiedError''"
| "type_name (OtherError n) = n"

text \<open>
  Modelled from the spec: the response classes of the client library
  (\<open>types.ChatInvite\<close>, \<open>types.ChatInviteAlready\<close>, the resolved peer and the full
  channel) are not part of the repository; they carry the fields that the adapters read.
  \<open>OtherInvite\<close> is any other successful response to the invite check. The full-channel
  lookup yields \<open>None\<close> where \<open>full and full.full_chat\<close> is falsy.
\<close>

record chat_invite =
  inv_channel :: "bool option"
  inv_megagroup :: "bool option"
  inv_request_needed :: "bool option"
  inv_verified :: "bool option"
  inv_title :: string
  inv_participants_count :: "int option"

datatype invite_response = ChatInvite chat_invite | ChatInviteAlready entity | OtherInvite

datatype resolved_peer = Resolved (chats: "entity list") (users: "entity list")

record channel_full =
  participants_count :: "int option"
  requests_pending :: "int option"

record telegram_client =
  CheckChatInviteRequest :: "string \<Rightarrow> exc + invite_response"
  ResolveUsernameRequest :: "string \<Rightarrow> exc + resolved_peer"
  GetFullChannelRequest :: "entity \<Rightarrow> exc + channel_full option"

text \<open>
  \<open>getattr(entity, name, default)\<close> for the two attributes read that way: the outer
  \<open>None\<close> says that the entity has no such attribute, so that the default is taken.
\<close>

fun attr_username :: "entity \<Rightarrow> string option option" where
  "attr_username (Channel mg un vf tt) = Some un"
| "attr_username (Chat vf tt) = None"
| "attr_username (User un vf) = Some un"
| "attr_username (OtherEntity tt un) = un"

fun attr_title :: "entity \<Rightarrow> string option option" where
  "attr_title (Channel mg un vf tt) = Some tt"
| "attr_title (Chat vf tt) = Some tt"
| "attr_title (User un vf) = None"
| "attr_title (OtherEntity tt un) = Some tt"

definition getattr :: "'a option option \<Rightarrow> 'a option \<Rightarrow> 'a option" where
  "getattr a d = (case a of None \<Rightarrow> d | Some v \<Rightarrow> v)"

section \<open>Resolution adapters\<close>

text \<open>
  Each adapter is the body of its \<open>try\<close> statement, which ends in a result or in the
  fault that was raised, followed by its handlers. The adapter itself returns
  \<open>Inr\<close> of a result, or \<open>Inl\<close> of a fault that no handler took.
\<close>

definition check_invite_try :: "telegram_client \<Rightarrow> string \<Rightarrow> exc + CheckResult" where
  "check_invite_try client code =
     (case CheckChatInviteRequest client code of
        Inl e \<Rightarrow> Inl e
      | Inr res \<Rightarrow>
          (case res of
             ChatInvite ci \<Rightarrow>
               Inr \<lparr> input_value = code, status = ''valid'',
                     kind = (if truthy (inv_channel ci) \<and> truthy (inv_megagroup ci)
                             then ''supergroup''
                             else if truthy (inv_channel ci) then ''channel'' else ''group''),
                     visibility = ''private'',
                     verified = Some (truthy (inv_verified ci)),
                     requires_approval = Some (truthy (inv_request_needed ci)),
                     member_count = inv_participants_count ci,
                     title = Some (inv_title ci),
                     username = None, extra = None \<rparr>
           | ChatInviteAlready entity \<Rightarrow>
               (case classify_chat entity of
                  (k, vis, ver) \<Rightarrow>
                    Inr \<lparr> input_value = code, status = ''valid'', kind = k,
                          visibility = vis, verified = ver, requires_approval = None,
                          member_count = None, title = None,
                          username = getattr (attr_username entity) None, extra = None \<rparr>)
           | OtherInvite \<Rightarrow>
               Inr \<lparr> input_value = code, status = ''valid'', kind = ''unknown'',
                     visibility = ''private'', verified = None, requires_approval = None,
                     member_count = None, title = None, username = None, extra = None \<rparr>))"

definition check_invite :: "telegram_client \<Rightarrow> string \<Rightarrow> exc + CheckResult" where
  "check_invite client code =
     (case check_invite_try client code of
        Inr r \<Rightarrow> Inr r
      | Inl e \<Rightarrow>
          Inr \<lparr> input_value = code, status = ''invalid: '' @ type_name (exc_class e),
                kind = ''unknown'', visibility = ''unknown'', verified = None,
                requires_approval = None, member_count = None, title = None,
                username = None, extra = Some (message e) \<rparr>)"

text \<open>
  The secondary lookup of the username adapter, made for a Channel only: it yields
  \<open>(member_count, requires_approval)\<close>, and any fault in it is swallowed.
\<close>

fun is_channel :: "entity \<Rightarrow> bool" where
  "is_channel (Channel mg un vf tt) = True"
| "is_channel (Chat vf tt) = False"
| "is_channel (User un vf) = False"
| "is_channel (OtherEntity tt un) = False"

definition full_channel_info :: "telegram_client \<Rightarrow> entity \<Rightarrow> int option \<times> bool option" where
  "full_channel_info client entity =
     (if is_channel entity
      then (case GetFullChannelRequest client entity of
              Inl e \<Rightarrow> (None, None)
            | Inr None \<Rightarrow> (None, None)
            | Inr (Some full_chat) \<Rightarrow>
                (participants_count full_chat,
                 (case requests_pending full_chat of
                    None \<Rightarrow> None
                  | Some join_requests \<Rightarrow> if join_requests > 0 then Some True else None)))
      else (None, None))"

definition select_entity :: "resolved_peer \<Rightarrow> entity option" where
  "select_entity resolved =
     (case chats resolved of
        c # cs \<Rightarrow> Some c
      | [] \<Rightarrow> (case users resolved of u # us \<Rightarrow> Some u | [] \<Rightarrow> None))"

definition check_username_try :: "telegram_client \<Rightarrow> string \<Rightarrow> exc + CheckResult" where
  "check_username_try client name =
     (case ResolveUsernameRequest client name of
        Inl e \<Rightarrow> Inl e
      | Inr resolved \<Rightarrow>
          (case select_entity resolved of
             None \<Rightarrow> Inl (Exc UsernameNotOccupiedError [])
           | Some entity \<Rightarrow>
               (case classify_chat entity of
                  (k, vis, ver) \<Rightarrow>
                    (case full_channel_info client entity of
                       (members, approval) \<Rightarrow>
                         Inr \<lparr> input_value = name, status = ''resolved'', kind = k,
                               visibility = vis, verified = ver,
                               requires_approval = approval, member_count = members,
                               title = getattr (attr_title entity) None,
                               username = getattr (attr_username entity) (Some name),
                               extra = None \<rparr>))))"

definition check_username :: "telegram_client \<Rightarrow> string \<Rightarrow> exc + CheckResult" where
  "check_username client name =
     (case check_username_try client name of
        Inr r \<Rightarrow> Inr r
      | Inl e \<Rightarrow>
          if exc_class e = UsernameInvalidError \<or> exc_class e = UsernameNotOccupiedError
          then Inr \<lparr> input_value = name,
                     status = ''invalid_username: '' @ type_name (exc_class e),
                     kind = ''unknown'', visibility = ''unknown'', verified = None,
                     requires_approval = None, member_count = None, title = None,
                     username = None, extra = None \<rparr>
          else Inr \<lparr> input_value = name, status = ''error: '' @ type_name (exc_class e),
                     kind = ''unknown'', visibility = ''unknown'', verified = None,
                     requires_approval = None, member_count = None, title = None,
                     username = None, extra = Some (message e) \<rparr>)"

section \<open>Reason extraction\<close>

definition mapping :: "(string \<times> string) list" where
  "mapping =
     [(''invitehashexpired'', ''invite expired''),
      (''invitehashinvalid'', ''invalid invite''),
      (''invitehashempty'', ''invalid invite''),
      (''usernamenotoccupied'', ''username not found''),
      (''usernameinvalid'', ''invalid username''),
      (''channelprivate'', ''private chat''),
      (''chatadminrequired'', ''admin rights required''),
      (''floodwait'', ''rate limit, try later''),
      (''authkeypermanentlyinvalid'', ''invalid session, sign in again'')]"

fun scan :: "(string \<times> string) list \<Rightarrow> string \<Rightarrow> string" where
  "scan [] text = ''error''"
| "scan ((needle, reason) # rest) text =
     (if contains needle text then reason else scan rest text)"

definition english_reason :: "string \<Rightarrow> string option \<Rightarrow> string" where
  "english_reason st ex =
     scan mapping (lower (st @ '' '' @ (case ex of None \<Rightarrow> [] | Some e \<Rightarrow> e)))"

section \<open>Batch driver\<close>

subsection \<open>Reading the input table\<close>

text \<open>
  The file is taken as the rows that \<open>csv.reader\<close> yields, a blank line being the
  empty row. \<open>csv.DictReader\<close> takes the first row as the field names, skips empty
  rows, and builds \<open>dict(zip(fieldnames, row))\<close>, in which the last of several equal
  field names wins and the fields that a short row lacks hold \<open>None\<close>; \<open>row_get\<close> is
  \<open>row.get(key)\<close> on that dictionary.
\<close>

definition row_get :: "string list \<Rightarrow> string list \<Rightarrow> string \<Rightarrow> string option" where
  "row_get fieldnames row key =
     (if key \<in> set (drop (length row) fieldnames) then None
      else map_of (rev (zip fieldnames row)) key)"

fun dict_rows :: "string list \<Rightarrow> string list list \<Rightarrow> string list \<Rightarrow> string list" where
  "dict_rows fieldnames [] vals = vals"
| "dict_rows fieldnames (row # rows) vals =
     (if row = [] then dict_rows fieldnames rows vals
      else (let v = strip (case row_get fieldnames row ''input'' of None \<Rightarrow> [] | Some x \<Rightarrow> x)
            in if v \<noteq> [] then dict_rows fieldnames rows (vals @ [v])
               else dict_rows fieldnames rows vals))"

fun plain_rows :: "string list list \<Rightarrow> string list \<Rightarrow> string list" where
  "plain_rows [] vals = vals"
| "plain_rows ([] # rows) vals = plain_rows rows vals"
| "plain_rows ((cell # cells) # rows) vals =
     (let v = strip cell
      in if v \<noteq> [] \<and> lower v \<noteq> ''input'' then plain_rows rows (vals @ [v])
         else plain_rows rows vals)"

definition read_values :: "string list list \<Rightarrow> string list" where
  "read_values rows =
     (case rows of
        [] \<Rightarrow> plain_rows rows []
      | fieldnames # rest \<Rightarrow>
          if ''input'' \<in> set fieldnames then dict_rows fieldnames rest []
          else plain_rows rows [])"

subsection \<open>The loop over the values\<close>

text \<open>
  Each value is processed in the world as it stands when its turn comes: the client
  that answers the requests, and \<open>print_line\<close>, the outcome of writing the item's
  line to the standard output (\<open>None\<close> when it is written, the fault when \<open>print\<close> or
  \<open>json.dumps\<close> raises). The text of the line is not modelled.
\<close>

record world =
  client :: telegram_client
  print_line :: "CheckResult \<Rightarrow> exc option"













section \<open>Example worlds\<close>

text \<open>
  Concrete collaborators for the examples below: \<open>client_of\<close> is the client that gives
  the same three answers to every request, \<open>world_of\<close> pairs a client with the outcome
  of writing a line.
\<close>

definition client_of ::
  "exc + invite_response \<Rightarrow> exc + resolved_peer \<Rightarrow> exc + channel_full option \<Rightarrow> telegram_client"
where
  "client_of invite resolved full =
     \<lparr> CheckChatInviteRequest = (\<lambda>code. invite),
       ResolveUsernameRequest = (\<lambda>name. resolved),
       GetFullChannelRequest = (\<lambda>entity. full) \<rparr>"


definition rpc_error :: "string \<Rightarrow> exc" where
  "rpc_error n = Exc (OtherError n) ''RPC error''"


definition preview :: chat_invite where
  "preview =
     \<lparr> inv_channel = Some True, inv_megagroup = None, inv_request_needed = None,
       inv_verified = None, inv_title = ''News'', inv_participants_count = Some 42 \<rparr>"

definition news_channel :: entity where
  "news_channel = Channel None (Some ''telegram'') (Some True) (Some ''Telegram News'')"

definition pending :: channel_full where
  "pending = \<lparr> participants_count = Some 1000, requests_pending = Some 3 \<rparr>"

definition invite_client :: "invite_response \<Rightarrow> telegram_client" where
  "invite_client res =
     client_of (Inr res) (Inl (rpc_error ''ConnectionError''))
       (Inl (rpc_error ''ConnectionError''))"

definition username_client :: "exc + resolved_peer \<Rightarrow> exc + channel_full option \<Rightarrow> telegram_client" where
  "username_client res full = client_of (Inl (rpc_error ''ConnectionError'')) res full"

definition expired_invite :: string where
  "expired_invite = ''https://t.me/joinchat/AAAAAAAAAAAAAAAAAA''"


section \<open>Properties of the entity classifier\<close>

text \<open>
  C3. The classifier is total, and its value is fixed by the shape of the entity. A
  Channel is a supergroup if its megagroup flag is true and a channel otherwise, public
  if a username is present and private otherwise (presence is the truth value of
  \<open>entity.username\<close>: a username that is \<open>None\<close> or the empty string is not present),
  and its verified component is always a boolean, false when the flag is absent. A
  Group is \<open>(group, private, verified)\<close>, a User is \<open>(user, public or private by its
  username, verified)\<close>, and any other shape is \<open>(unknown, unknown, absent)\<close>. No shape
  is left without a result.
\<close>

theorem classify_chat_total:
  "classify_chat (Channel mg un vf tt) =
     (if mg = Some True then ''supergroup'' else ''channel'',
      if (\<exists>u. un = Some u \<and> u \<noteq> []) then ''public'' else ''private'',
      Some (vf = Some True))
   \<and> classify_chat (Channel mg un None tt) =
     (if mg = Some True then ''supergroup'' else ''channel'',
      if (\<exists>u. un = Some u \<and> u \<noteq> []) then ''public'' else ''private'',
      Some False)
   \<and> classify_chat (Chat vf tt) = (''group'', ''private'', Some (vf = Some True))
   \<and> classify_chat (User un vf) =
     (''user'', if (\<exists>u. un = Some u \<and> u \<noteq> []) then ''public'' else ''private'',
      Some (vf = Some True))
   \<and> classify_chat (OtherEntity ot ou) = (''unknown'', ''unknown'', None)
   \<and> (\<exists>k v b. classify_chat e = (k, v, b))"
  by (cases un; cases e) (simp_all add: truthy_def nonempty_def)

section \<open>Properties of the resolution adapters\<close>

lemma full_channel_info_approval:
  "snd (full_channel_info cl e) =
     (if is_channel e \<and>
         (\<exists>fc n. GetFullChannelRequest cl e = Inr (Some fc) \<and> requests_pending fc = Some n \<and> 0 < n)
      then Some True else None)"
  by (auto simp: full_channel_info_def split: sum.splits option.splits)

lemma full_channel_info_not_false:
  "full_channel_info cl e = (m, a) \<Longrightarrow> a \<noteq> Some False"
  by (auto simp: full_channel_info_def split: sum.splits option.splits if_splits)

text \<open>
  C1, as the claim states it, fails in the invite adapter: an invite preview without
  the "join request needed" flag gives \<open>requires_approval = False\<close>, not absent.
\<close>

theorem invite_preview_without_flag_counterexample:
  "inv_request_needed preview = None
   \<and> check_invite (invite_client (ChatInvite preview)) ''AAAAAAAAAAAAAAAA'' =
       Inr \<lparr> input_value = ''AAAAAAAAAAAAAAAA'', status = ''valid'', kind = ''channel'',
             visibility = ''private'', verified = Some False,
             requires_approval = Some False, member_count = Some 42,
             title = Some ''News'', username = None, extra = None \<rparr>"
  by (simp add: check_invite_def check_invite_try_def invite_client_def client_of_def
      preview_def truthy_def)

text \<open>
  C1, amended. In the invite adapter an invite preview always gives an explicit
  boolean: \<open>requires_approval\<close> is true if the "join request needed" flag is set and
  false otherwise, also when the flag is absent. In the username adapter
  \<open>requires_approval\<close> is true if the selected entity is a Channel whose full-channel
  lookup succeeds with a pending-join-request counter that is present and greater than
  zero, and it is absent otherwise; it is never false.
\<close>

theorem requires_approval_tristate:
  "(CheckChatInviteRequest cl code = Inr (ChatInvite ci) \<longrightarrow>
      (\<exists>r. check_invite cl code = Inr r
         \<and> requires_approval r = Some (inv_request_needed ci = Some True)))
   \<and> (ResolveUsernameRequest cl name = Inr resolved \<and> select_entity resolved = Some e \<longrightarrow>
      (\<exists>r. check_username cl name = Inr r
         \<and> requires_approval r =
             (if is_channel e \<and>
                 (\<exists>fc n. GetFullChannelRequest cl e = Inr (Some fc)
                    \<and> requests_pending fc = Some n \<and> 0 < n)
              then Some True else None)))
   \<and> (check_username cl name = Inr r' \<longrightarrow> requires_approval r' \<noteq> Some False)"
proof (intro conjI impI)
  assume "CheckChatInviteRequest cl code = Inr (ChatInvite ci)"
  then show "\<exists>r. check_invite cl code = Inr r
      \<and> requires_approval r = Some (inv_request_needed ci = Some True)"
    by (simp add: check_invite_def check_invite_try_def truthy_def)
next
  assume "ResolveUsernameRequest cl name = Inr resolved \<and> select_entity resolved = Some e"
  then show "\<exists>r. check_username cl name = Inr r
      \<and> requires_approval r =
          (if is_channel e \<and>
              (\<exists>fc n. GetFullChannelRequest cl e = Inr (Some fc)
                 \<and> requests_pending fc = Some n \<and> 0 < n)
           then Some True else None)"
    using full_channel_info_approval [of cl e]
    by (auto simp: check_username_def check_username_try_def split: prod.splits)
next
  assume "check_username cl name = Inr r'"
  then show "requires_approval r' \<noteq> Some False"
    by (auto simp: check_username_def check_username_try_def
        dest: full_channel_info_not_false
        split: prod.splits sum.splits option.splits if_splits)
qed

theorem requires_approval_tristate_witness:
  "CheckChatInviteRequest (invite_client (ChatInvite preview)) ''AAAAAAAAAAAAAAAA'' = Inr (ChatInvite preview)
   \<and> (\<exists>r. check_invite (invite_client (ChatInvite preview)) ''AAAAAAAAAAAAAAAA'' = Inr r
         \<and> requires_approval r = Some False)
   \<and> ResolveUsernameRequest (username_client (Inr (Resolved [news_channel] [])) (Inr (Some pending))) ''telegram''
       = Inr (Resolved [news_channel] [])
   \<and> select_entity (Resolved [news_channel] []) = Some news_channel
   \<and> (\<exists>r. check_username (username_client (Inr (Resolved [news_channel] [])) (Inr (Some pending))) ''telegram'' = Inr r
         \<and> requires_approval r = Some True \<and> requires_approval r \<noteq> Some False)"
proof -
  let ?ci = "invite_client (ChatInvite preview)"
  let ?cu = "username_client (Inr (Resolved [news_channel] [])) (Inr (Some pending))"
  have h1: "CheckChatInviteRequest ?ci ''AAAAAAAAAAAAAAAA'' = Inr (ChatInvite preview)"
    by (simp add: invite_client_def client_of_def)
  have h2: "ResolveUsernameRequest ?cu ''telegram'' = Inr (Resolved [news_channel] [])
      \<and> select_entity (Resolved [news_channel] []) = Some news_channel"
    by (simp add: username_client_def client_of_def select_entity_def)
  have full: "GetFullChannelRequest ?cu news_channel = Inr (Some pending)"
    by (simp add: username_client_def client_of_def)
  from requires_approval_tristate [where cl = ?ci and code = "''AAAAAAAAAAAAAAAA''" and ci = preview] h1
  have c1: "\<exists>r. check_invite ?ci ''AAAAAAAAAAAAAAAA'' = Inr r \<and> requires_approval r = Some False"
    by (simp add: preview_def)
  from requires_approval_tristate [where cl = ?cu and name = "''telegram''"
      and resolved = "Resolved [news_channel] []" and e = news_channel] h2
  have "\<exists>r. check_username ?cu ''telegram'' = Inr r \<and> requires_approval r = Some True"
    unfolding full by (simp add: news_channel_def pending_def)
  then obtain r where r: "check_username ?cu ''telegram'' = Inr r" "requires_approval r = Some True"
    by blast
  from requires_approval_tristate [where cl = ?cu and name = "''telegram''" and r' = r] r
  have "requires_approval r \<noteq> Some False" by simp
  with h1 h2 c1 r show ?thesis by simp
qed

text \<open>
  C2, as the claim states it, fails: a successful response of another shape gives the
  visibility \<open>private\<close>, the value that the adapter starts from, not \<open>unknown\<close>.
\<close>

theorem other_invite_shape_counterexample:
  "check_invite (invite_client OtherInvite) ''AAAAAAAAAAAAAAAA'' =
     Inr \<lparr> input_value = ''AAAAAAAAAAAAAAAA'', status = ''valid'', kind = ''unknown'',
           visibility = ''private'', verified = None, requires_approval = None,
           member_count = None, title = None, username = None, extra = None \<rparr>
   \<and> ''private'' \<noteq> ''unknown''"
  by (simp add: check_invite_def check_invite_try_def invite_client_def client_of_def)

text \<open>
  C2, amended. For every successful invite-check response that is neither the invite
  preview nor the already-member variant, the invite adapter returns a result with
  status \<open>valid\<close>, kind \<open>unknown\<close> and visibility \<open>private\<close>, every other field
  being absent.
\<close>

theorem other_invite_shape:
  "CheckChatInviteRequest cl code = Inr OtherInvite \<Longrightarrow>
   check_invite cl code =
     Inr \<lparr> input_value = code, status = ''valid'', kind = ''unknown'',
           visibility = ''private'', verified = None, requires_approval = None,
           member_count = None, title = None, username = None, extra = None \<rparr>"
  by (simp add: check_invite_def check_invite_try_def)

theorem other_invite_shape_witness:
  "CheckChatInviteRequest (invite_client OtherInvite) ''BBBBBBBBBBBBBBBB'' = Inr OtherInvite
   \<and> check_invite (invite_client OtherInvite) ''BBBBBBBBBBBBBBBB'' =
       Inr \<lparr> input_value = ''BBBBBBBBBBBBBBBB'', status = ''valid'', kind = ''unknown'',
             visibility = ''private'', verified = None, requires_approval = None,
             member_count = None, title = None, username = None, extra = None \<rparr>"
proof -
  have h: "CheckChatInviteRequest (invite_client OtherInvite) ''BBBBBBBBBBBBBBBB'' = Inr OtherInvite"
    by (simp add: invite_client_def client_of_def)
  from other_invite_shape [OF h] h show ?thesis by simp
qed

text \<open>
  C5. The username adapter takes the first chat-like entity of the response if there is
  one, else the first user-like entity: the result is \<open>resolved\<close> and every field of it
  is computed from that entity. With neither, the resolution is a not-found fault. On a
  username-invalid or username-not-occupied fault (the not-found one included) the
  status is \<open>invalid_username: \<close> followed by the fault kind, every classification
  field is unknown or absent and \<open>extra\<close> is absent; on any other fault the status is
  \<open>error: \<close> followed by the fault kind, the fields are unknown or absent and
  \<open>extra\<close> is the text of the fault.
\<close>

theorem check_username_selection_and_faults:
  "(ResolveUsernameRequest cl name = Inr (Resolved (c # cs) us) \<longrightarrow>
      (\<exists>r. check_username cl name = Inr r \<and> status r = ''resolved''
         \<and> (kind r, visibility r, verified r) = classify_chat c
         \<and> title r = getattr (attr_title c) None
         \<and> username r = getattr (attr_username c) (Some name)
         \<and> (member_count r, requires_approval r) = full_channel_info cl c
         \<and> extra r = None))
   \<and> (ResolveUsernameRequest cl name = Inr (Resolved [] (u # us)) \<longrightarrow>
      (\<exists>r. check_username cl name = Inr r \<and> status r = ''resolved''
         \<and> (kind r, visibility r, verified r) = classify_chat u
         \<and> title r = getattr (attr_title u) None
         \<and> username r = getattr (attr_username u) (Some name)
         \<and> (member_count r, requires_approval r) = full_channel_info cl u
         \<and> extra r = None))
   \<and> (ResolveUsernameRequest cl name = Inr (Resolved [] []) \<longrightarrow>
      check_username cl name =
        Inr \<lparr> input_value = name, status = ''invalid_username: UsernameNotOccupiedError'',
              kind = ''unknown'', visibility = ''unknown'', verified = None,
              requires_approval = None, member_count = None, title = None,
              username = None, extra = None \<rparr>)
   \<and> (ResolveUsernameRequest cl name = Inl e
        \<and> (exc_class e = UsernameInvalidError \<or> exc_class e = UsernameNotOccupiedError) \<longrightarrow>
      check_username cl name =
        Inr \<lparr> input_value = name,
              status = ''invalid_username: '' @ type_name (exc_class e),
              kind = ''unknown'', visibility = ''unknown'', verified = None,
              requires_approval = None, member_count = None, title = None,
              username = None, extra = None \<rparr>)
   \<and> (ResolveUsernameRequest cl name = Inl e
        \<and> exc_class e \<noteq> UsernameInvalidError \<and> exc_class e \<noteq> UsernameNotOccupiedError \<longrightarrow>
      check_username cl name =
        Inr \<lparr> input_value = name, status = ''error: '' @ type_name (exc_class e),
              kind = ''unknown'', visibility = ''unknown'', verified = None,
              requires_approval = None, member_count = None, title = None,
              username = None, extra = Some (message e) \<rparr>)"
  by (auto simp: check_username_def check_username_try_def select_entity_def
      split: prod.splits)

theorem check_username_selection_and_faults_witness:
  "(\<exists>r. check_username (username_client (Inr (Resolved [news_channel] [User (Some ''durov'') None])) (Inr (Some pending))) ''telegram'' = Inr r
       \<and> status r = ''resolved'' \<and> kind r = ''channel'' \<and> visibility r = ''public''
       \<and> verified r = Some True \<and> title r = Some ''Telegram News'' \<and> member_count r = Some 1000)
   \<and> (\<exists>r. check_username (username_client (Inr (Resolved [] [User (Some ''durov'') None])) (Inr None)) ''durov'' = Inr r
       \<and> status r = ''resolved'' \<and> kind r = ''user'' \<and> visibility r = ''public''
       \<and> verified r = Some False \<and> username r = Some ''durov'' \<and> member_count r = None)
   \<and> check_username (username_client (Inr (Resolved [] [])) (Inr None)) ''nobody'' =
        Inr \<lparr> input_value = ''nobody'', status = ''invalid_username: UsernameNotOccupiedError'',
              kind = ''unknown'', visibility = ''unknown'', verified = None,
              requires_approval = None, member_count = None, title = None,
              username = None, extra = None \<rparr>
   \<and> check_username (username_client (Inl (Exc UsernameInvalidError ''Nobody is using this username'')) (Inr None)) ''a_b_c'' =
        Inr \<lparr> input_value = ''a_b_c'', status = ''invalid_username: UsernameInvalidError'',
              kind = ''unknown'', visibility = ''unknown'', verified = None,
              requires_approval = None, member_count = None, title = None,
              username = None, extra = None \<rparr>
   \<and> check_username (username_client (Inl (rpc_error ''FloodWaitError'')) (Inr None)) ''durov'' =
        Inr \<lparr> input_value = ''durov'', status = ''error: FloodWaitError'',
              kind = ''unknown'', visibility = ''unknown'', verified = None,
              requires_approval = None, member_count = None, title = None,
              username = None, extra = Some ''RPC error'' \<rparr>"
proof -
  let ?durov = "User (Some ''durov'') None"
  let ?c1 = "username_client (Inr (Resolved [news_channel] [?durov])) (Inr (Some pending))"
  let ?c2 = "username_client (Inr (Resolved [] [?durov])) (Inr None)"
  let ?c3 = "username_client (Inr (Resolved [] [])) (Inr None)"
  let ?c4 = "username_client (Inl (Exc UsernameInvalidError ''Nobody is using this username'')) (Inr None)"
  let ?c5 = "username_client (Inl (rpc_error ''FloodWaitError'')) (Inr None)"
  have h1: "ResolveUsernameRequest ?c1 ''telegram'' = Inr (Resolved (news_channel # []) [?durov])"
    by (simp add: username_client_def client_of_def)
  have h2: "ResolveUsernameRequest ?c2 ''durov'' = Inr (Resolved [] (?durov # []))"
    by (simp add: username_client_def client_of_def)
  have h3: "ResolveUsernameRequest ?c3 ''nobody'' = Inr (Resolved [] [])"
    by (simp add: username_client_def client_of_def)
  have h4: "ResolveUsernameRequest ?c4 ''a_b_c'' = Inl (Exc UsernameInvalidError ''Nobody is using this username'')"
    by (simp add: username_client_def client_of_def)
  have h5: "ResolveUsernameRequest ?c5 ''durov'' = Inl (rpc_error ''FloodWaitError'')"
    by (simp add: username_client_def client_of_def)
  have f1: "full_channel_info ?c1 news_channel = (Some 1000, Some True)"
    by (simp add: full_channel_info_def username_client_def client_of_def news_channel_def pending_def)
  have f2: "full_channel_info ?c2 ?durov = (None, None)"
    by (simp add: full_channel_info_def)
  note T = check_username_selection_and_faults
  from T [where cl = ?c1 and name = "''telegram''" and c = news_channel and cs = "[]" and us = "[?durov]"] h1
  have g1: "\<exists>r. check_username ?c1 ''telegram'' = Inr r
       \<and> status r = ''resolved'' \<and> kind r = ''channel'' \<and> visibility r = ''public''
       \<and> verified r = Some True \<and> title r = Some ''Telegram News'' \<and> member_count r = Some 1000"
    unfolding f1 by (auto simp add: news_channel_def truthy_def nonempty_def getattr_def)
  from T [where cl = ?c2 and name = "''durov''" and u = ?durov and us = "[]"] h2
  have g2: "\<exists>r. check_username ?c2 ''durov'' = Inr r
       \<and> status r = ''resolved'' \<and> kind r = ''user'' \<and> visibility r = ''public''
       \<and> verified r = Some False \<and> username r = Some ''durov'' \<and> member_count r = None"
    unfolding f2 by (auto simp add: truthy_def nonempty_def getattr_def)
  from T [where cl = ?c3 and name = "''nobody''"] h3
  have g3: "check_username ?c3 ''nobody'' =
        Inr \<lparr> input_value = ''nobody'', status = ''invalid_username: UsernameNotOccupiedError'',
              kind = ''unknown'', visibility = ''unknown'', verified = None,
              requires_approval = None, member_count = None, title = None,
              username = None, extra = None \<rparr>"
    by simp
  from T [where cl = ?c4 and name = "''a_b_c''" and e = "Exc UsernameInvalidError ''Nobody is using this username''"] h4
  have g4: "check_username ?c4 ''a_b_c'' =
        Inr \<lparr> input_value = ''a_b_c'', status = ''invalid_username: UsernameInvalidError'',
              kind = ''unknown'', visibility = ''unknown'', verified = None,
              requires_approval = None, member_count = None, title = None,
              username = None, extra = None \<rparr>"
    by simp
  from T [where cl = ?c5 and name = "''durov''" and e = "rpc_error ''FloodWaitError''"] h5
  have g5: "check_username ?c5 ''durov'' =
        Inr \<lparr> input_value = ''durov'', status = ''error: FloodWaitError'',
              kind = ''unknown'', visibility = ''unknown'', verified = None,
              requires_approval = None, member_count = None, title = None,
              username = None, extra = Some ''RPC error'' \<rparr>"
    by (simp add: rpc_error_def)
  from g1 g2 g3 g4 g5 show ?thesis by blast
qed

section \<open>Properties of the batch driver\<close>













section \<open>Properties of the reason extraction\<close>

lemma starts_with_iff: "starts_with n s \<longleftrightarrow> (\<exists>post. s = n @ post)"
  by (induction n s rule: starts_with.induct) auto

lemma contains_iff: "contains n t \<longleftrightarrow> (\<exists>pre post. t = pre @ n @ post)"
proof (induction t)
  case Nil
  then show ?case by (auto simp: starts_with_iff)
next
  case (Cons c t)
  show ?case
  proof
    assume "contains n (c # t)"
    then consider "starts_with n (c # t)" | "contains n t" by auto
    then show "\<exists>pre post. c # t = pre @ n @ post"
    proof cases
      case 1
      then obtain post where "c # t = [] @ n @ post" by (auto simp: starts_with_iff)
      then show ?thesis by blast
    next
      case 2
      with Cons obtain pre post where "t = pre @ n @ post" by blast
      then have "c # t = (c # pre) @ n @ post" by simp
      then show ?thesis by blast
    qed
  next
    assume "\<exists>pre post. c # t = pre @ n @ post"
    then obtain pre post where e: "c # t = pre @ n @ post" by blast
    show "contains n (c # t)"
    proof (cases pre)
      case Nil
      with e have "\<exists>post. c # t = n @ post" by simp
      then have "starts_with n (c # t)" by (simp only: starts_with_iff)
      then show ?thesis by simp
    next
      case (Cons a pre')
      with e have "t = pre' @ n @ post" by simp
      with Cons.IH show ?thesis by auto
    qed
  qed
qed

lemma scan_find: "scan m t = (case find (\<lambda>(needle, reason). contains needle t) m of None \<Rightarrow> ''error'' | Some (needle, reason) \<Rightarrow> reason)"
  by (induction m t rule: scan.induct) auto

text \<open>
  C8. For every status and extra text, the reason is found in the lower-cased
  concatenation of the status, a space and the extra text (nothing for an absent one):
  it is the short reason of the first entry of the fixed table, in this order, whose
  substring occurs in that text, and \<open>error\<close> when no entry occurs.
\<close>

theorem english_reason_first_match: 
  "english_reason st ex =
     (case find (\<lambda>(needle, reason). \<exists>pre post. lower (st @ '' '' @ (case ex of None \<Rightarrow> [] | Some e \<Rightarrow> e)) = pre @ needle @ post)
       [(''invitehashexpired'', ''invite expired''),
      (''invitehashinvalid'', ''invalid invite''),
      (''invitehashempty'', ''invalid invite''),
      (''usernamenotoccupied'', ''username not found''),
      (''usernameinvalid'', ''invalid username''),
      (''channelprivate'', ''private chat''),
      (''chatadminrequired'', ''admin rights required''),
      (''floodwait'', ''rate limit, try later''),
      (''authkeypermanentlyinvalid'', ''invalid session, sign in again'')] of
        None \<Rightarrow> ''error''
      | Some (needle, reason) \<Rightarrow> reason)"
  unfolding english_reason_def scan_find contains_iff mapping_def ..


section \<open>Properties of the input table\<close>

lemma dict_rows_eq:
  "dict_rows fn rows vals =
     vals @ filter (\<lambda>v. v \<noteq> [])
              (map (\<lambda>row. strip (case row_get fn row ''input'' of None \<Rightarrow> [] | Some x \<Rightarrow> x))
                 (filter (\<lambda>row. row \<noteq> []) rows))"
  by (induction fn rows vals rule: dict_rows.induct) (simp_all add: Let_def)

lemma plain_rows_eq:
  "plain_rows rows vals =
     vals @ filter (\<lambda>v. v \<noteq> [] \<and> lower v \<noteq> ''input'')
              (map (\<lambda>row. strip (hd row)) (filter (\<lambda>row. row \<noteq> []) rows))"
  by (induction rows vals rule: plain_rows.induct) (simp_all add: Let_def)

lemma map_of_zip_column:
  "distinct fn \<Longrightarrow> j < length fn \<Longrightarrow> j < length row \<Longrightarrow>
   map_of (zip fn row) (fn ! j) = Some (row ! j)"
proof (induction fn arbitrary: j row)
  case Nil
  then show ?case by simp
next
  case (Cons a fn)
  then obtain r row' where row: "row = r # row'" by (cases row) auto
  show ?case
  proof (cases j)
    case 0
    then show ?thesis by (simp add: row)
  next
    case (Suc k)
    with Cons.prems have "fn ! k \<noteq> a" by (auto simp: row)
    with Cons Suc show ?thesis by (simp add: row)
  qed
qed

lemma row_get_column:
  assumes "distinct fn" "j < length fn" "fn ! j = key"
  shows "row_get fn row key = (if j < length row then Some (row ! j) else None)"
proof (cases "j < length row")
  case True
  have d: "distinct (map fst (zip fn row))"
    using assms(1) by (simp add: distinct_zipI1 map_fst_zip_take)
  have "key \<notin> set (drop (length row) fn)"
  proof
    assume "key \<in> set (drop (length row) fn)"
    then obtain i where i: "i < length fn - length row" "drop (length row) fn ! i = key"
      by (auto simp: in_set_conv_nth)
    then have "fn ! (length row + i) = fn ! j" using assms(3) by simp
    with assms(1,2) i(1) have "length row + i = j" by (simp add: nth_eq_iff_index_eq)
    with True show False by simp
  qed
  moreover have "map_of (rev (zip fn row)) key = Some (row ! j)"
    using map_of_zip_column [OF assms(1,2) True] assms(3) d
    by (metis distinct_rev map_of_inject_set rev_map set_rev)
  ultimately show ?thesis using True by (simp add: row_get_def)
next
  case False
  then have "drop (length row) fn ! (j - length row) = key" "j - length row < length (drop (length row) fn)"
    using assms by simp_all
  then have "key \<in> set (drop (length row) fn)"
    using nth_mem by blast
  then show ?thesis using False by (simp add: row_get_def)
qed

text \<open>
  C9, as the claim states it, fails in the path without a column named \<open>input\<close>: the
  second row below is no header and is not named exactly \<open>input\<close>, yet it is dropped,
  and the first cell of the third row is not used verbatim but stripped.
\<close>

theorem input_rows_counterexample:
  "read_values [ [''@alpha1''], [''INPUT''], ['' @beta22 '', ''x'']] = [''@alpha1'', ''@beta22'']"
  by code_simp

text \<open>
  C9, amended. If the first row has a field named exactly \<open>input\<close> (case-sensitive), it
  is the header, and the column named \<open>input\<close> of every later non-empty row is used
  (with distinct field names: the cell at the position of \<open>input\<close>, nothing for a row
  too short to have it). Else the first column of every non-empty row is used, the first
  row included. In both paths the value is stripped of surrounding whitespace and
  dropped when empty; in the second path a row whose stripped first cell is \<open>input\<close> in
  any letter case is dropped as well, wherever it stands. No other row is dropped.
\<close>

theorem read_values_paths:
  "(''input'' \<in> set fieldnames \<longrightarrow>
      read_values (fieldnames # rest) =
        filter (\<lambda>v. v \<noteq> [])
          (map (\<lambda>row. strip (case row_get fieldnames row ''input'' of None \<Rightarrow> [] | Some x \<Rightarrow> x))
             (filter (\<lambda>row. row \<noteq> []) rest)))
   \<and> (distinct fieldnames \<and> j < length fieldnames \<and> fieldnames ! j = ''input'' \<longrightarrow>
      row_get fieldnames row ''input'' = (if j < length row then Some (row ! j) else None))
   \<and> (''input'' \<notin> set fieldnames \<longrightarrow>
      read_values (fieldnames # rest) =
        filter (\<lambda>v. v \<noteq> [] \<and> lower v \<noteq> ''input'')
          (map (\<lambda>row. strip (hd row)) (filter (\<lambda>row. row \<noteq> []) (fieldnames # rest))))
   \<and> read_values [] = []"
  using row_get_column [of fieldnames j "''input''" row]
  by (simp add: read_values_def dict_rows_eq plain_rows_eq)


theorem read_values_paths_witness:
  "''input'' \<in> set [''note'', ''input'']
   \<and> read_values [ [''note'', ''input''], [''a'', ''@alpha1''], [], [''b''], [''c'', ''Input''], [''d'', '' @beta22 '']]
       = [''@alpha1'', ''Input'', ''@beta22'']
   \<and> distinct [''note'', ''input''] \<and> (1::nat) < length [''note'', ''input''] \<and> [''note'', ''input''] ! 1 = ''input''
   \<and> row_get [''note'', ''input''] [''a'', ''@alpha1''] ''input'' = Some ''@alpha1''
   \<and> row_get [''note'', ''input''] [''b''] ''input'' = None
   \<and> ''input'' \<notin> set [''Input'', ''note'']
   \<and> read_values [ [''Input'', ''note''], ['' @alpha1'', ''a''], [], [''  ''], [''iNPUT''], [''@beta22'']]
       = [''@alpha1'', ''@beta22'']"
proof -
  let ?h = "[''note'', ''input'']"
  let ?rest = "[ [''a'', ''@alpha1''], [], [''b''], [''c'', ''Input''], [''d'', '' @beta22 '']]"
  let ?g = "[''Input'', ''note'']"
  let ?rest2 = "[ ['' @alpha1'', ''a''], [], [''  ''], [''iNPUT''], [''@beta22'']]"
  have h1: "''input'' \<in> set ?h" by simp
  have h2: "distinct ?h \<and> (1::nat) < length ?h \<and> ?h ! 1 = ''input''" by simp
  have h3: "''input'' \<notin> set ?g" by simp
  have e1: "filter (\<lambda>v. v \<noteq> [])
          (map (\<lambda>row. strip (case row_get ?h row ''input'' of None \<Rightarrow> [] | Some x \<Rightarrow> x))
             (filter (\<lambda>row. row \<noteq> []) ?rest)) = [''@alpha1'', ''Input'', ''@beta22'']"
    by code_simp
  have e3: "filter (\<lambda>v. v \<noteq> [] \<and> lower v \<noteq> ''input'')
          (map (\<lambda>row. strip (hd row)) (filter (\<lambda>row. row \<noteq> []) (?g # ?rest2))) = [''@alpha1'', ''@beta22'']"
    by code_simp
  note T = read_values_paths
  from T [where fieldnames = ?h and rest = ?rest] h1
  have g1: "read_values (?h # ?rest) = [''@alpha1'', ''Input'', ''@beta22'']"
    unfolding e1 by blast
  from T [where fieldnames = ?h and j = 1 and row = "[''a'', ''@alpha1'']"] h2
  have g2: "row_get ?h [''a'', ''@alpha1''] ''input'' = Some ''@alpha1''" by simp
  from T [where fieldnames = ?h and j = 1 and row = "[''b'']"] h2
  have g2': "row_get ?h [''b''] ''input'' = None" by simp
  from T [where fieldnames = ?g and rest = ?rest2] h3
  have g3: "read_values (?g # ?rest2) = [''@alpha1'', ''@beta22'']"
    unfolding e3 by blast
  from h1 h2 h3 g1 g2 g2' g3 show ?thesis by blast
qed

section \<open>Properties of the identifier parser\<close>

lemma lower_char_space: "is_space c \<Longrightarrow> lower_char c = c"
  by (auto simp: is_space_def lower_char_def Let_def)

lemma lower_char_ascii_low:
  assumes "lower_char c = a" "(of_char a :: nat) < 65 \<or> (90 < (of_char a :: nat) \<and> of_char a < (97::nat))"
  shows "c = a"
proof (rule ccontr)
  assume "c \<noteq> a"
  with assms(1) have up: "(65 \<le> (of_char c :: nat) \<and> (of_char c :: nat) \<le> 90) \<or> (192 \<le> (of_char c :: nat) \<and> (of_char c :: nat) \<le> 222)"
    and a: "a = char_of ((of_char c :: nat) + 32)"
    by (auto simp: lower_char_def Let_def split: if_splits)
  from a have "(of_char a :: nat) = ((of_char c :: nat) + 32) mod 256" by simp
  with up assms(2) show False by auto
qed

lemma not_space_lit_chars:
  "\<not> is_space CHR ''h''" "\<not> is_space CHR ''t''" "\<not> is_space CHR ''@''" "\<not> is_space CHR ''/''"
  by (simp_all add: is_space_def)


lemma lit_needs: "lit l s = Some r \<Longrightarrow> a \<in> set l \<Longrightarrow> \<exists>c \<in> set s. lower_char c = a"
  by (induction l s rule: lit.induct) (auto split: if_splits)

lemma lit_slash: "lit l s = Some r \<Longrightarrow> CHR ''/'' \<in> set l \<Longrightarrow> CHR ''/'' \<in> set s"
proof -
  assume "lit l s = Some r" "CHR ''/'' \<in> set l"
  then obtain c where c: "c \<in> set s" "lower_char c = CHR ''/''" using lit_needs by blast
  from c(2) have "c = CHR ''/''" by (rule lower_char_ascii_low) simp
  with c show ?thesis by simp
qed

lemma lit_no_slash: "CHR ''/'' \<in> set l \<Longrightarrow> CHR ''/'' \<notin> set s \<Longrightarrow> lit l s = None"
  using lit_slash by (cases "lit l s") auto

lemma lit_at: "lit ''@'' s = Some r \<Longrightarrow> CHR ''@'' \<in> set s"
proof -
  assume "lit ''@'' s = Some r"
  then obtain c where c: "c \<in> set s" "lower_char c = CHR ''@''"
    using lit_needs [of "''@''" s r "CHR ''@''"] by auto
  from c(2) have "c = CHR ''@''" by (rule lower_char_ascii_low) simp
  with c show ?thesis by simp
qed

lemma invite_at_needs_slash: "CHR ''/'' \<notin> set s \<Longrightarrow> invite_at s = None"
  by (simp add: invite_at_def opt_scheme_def invite_link_def orelse_def andthen_def lit_no_slash)

lemma invite_search_needs_slash: "CHR ''/'' \<notin> set s \<Longrightarrow> invite_search s = None"
  by (induction s) (simp_all add: invite_at_needs_slash orelse_def)

lemma username_at_needs: "CHR ''/'' \<notin> set s \<Longrightarrow> CHR ''@'' \<notin> set s \<Longrightarrow> username_at s = None"
  using lit_at [of s]
  by (cases "lit ''@'' s") (auto simp add: username_at_def opt_scheme_def orelse_def andthen_def lit_no_slash)

lemma username_search_needs: "CHR ''/'' \<notin> set s \<Longrightarrow> CHR ''@'' \<notin> set s \<Longrightarrow> username_search s = None"
  by (induction s) (simp_all add: username_at_needs orelse_def)







lemma space_not_handle: "is_space c \<Longrightarrow> \<not> is_handle_char c"
  by (auto simp: is_space_def is_handle_char_def Let_def)

lemma space_not_code: "is_space c \<Longrightarrow> \<not> is_code_char c"
  by (auto simp: is_code_char_def space_not_handle) (simp add: is_space_def)

lemma takeWhile_append_not:
  "list_all (\<lambda>w. \<not> P w) ws \<Longrightarrow> takeWhile P (r @ ws) = takeWhile P r"
  by (induction r) (auto simp: takeWhile_eq_Nil_iff list_all_iff)

lemma spaces_not_code: "list_all is_space ws \<Longrightarrow> list_all (\<lambda>w. \<not> is_code_char w) ws"
  by (auto simp: list_all_iff space_not_code)

lemma spaces_not_handle: "list_all is_space ws \<Longrightarrow> list_all (\<lambda>w. \<not> is_handle_char w) ws"
  by (auto simp: list_all_iff space_not_handle)

lemma invite_code_stable: "list_all is_space ws \<Longrightarrow> invite_code (r @ ws) = invite_code r"
  by (simp add: invite_code_def takeWhile_append_not spaces_not_code)

lemma handle_stable: "list_all is_space ws \<Longrightarrow> handle (r @ ws) = handle r"
  by (simp add: handle_def takeWhile_append_not spaces_not_handle)

lemma lit_stable:
  assumes "list_all is_space ws"
  shows "list_all (\<lambda>a. \<not> is_space a) l \<Longrightarrow> lit l (s @ ws) = map_option (\<lambda>r. r @ ws) (lit l s)"
proof (induction l s rule: lit.induct)
  case (1 s)
  then show ?case by simp
next
  case (2 a l)
  show ?case
  proof (cases ws)
    case Nil
    then show ?thesis by simp
  next
    case (Cons w ws')
    with assms have "is_space w" by simp
    moreover have "\<not> is_space a" using 2 by simp
    ultimately have "lower_char w \<noteq> a" using lower_char_space by auto
    then show ?thesis by (simp add: Cons)
  qed
next
  case (3 a l c s)
  then show ?case by simp
qed

lemma andthen_lit_stable:
  assumes "list_all is_space ws" "list_all (\<lambda>a. \<not> is_space a) l" "\<forall>r. k (r @ ws) = k r"
  shows "andthen (lit l (s @ ws)) k = andthen (lit l s) k"
  by (simp add: lit_stable [OF assms(1,2)] andthen_def assms(3) split: option.splits)

lemma literal_chars:
  "list_all (\<lambda>a. \<not> is_space a) ''https://''"
  "list_all (\<lambda>a. \<not> is_space a) ''http://''"
  "list_all (\<lambda>a. \<not> is_space a) ''t.me/''"
  "list_all (\<lambda>a. \<not> is_space a) ''joinchat/''"
  "list_all (\<lambda>a. \<not> is_space a) ''+''"
  "list_all (\<lambda>a. \<not> is_space a) ''tg://join?invite=''"
  "list_all (\<lambda>a. \<not> is_space a) ''@''"
  by (simp_all add: is_space_def)

lemma opt_scheme_stable:
  assumes "list_all is_space ws" "\<forall>r. k (r @ ws) = k r"
  shows "opt_scheme k (s @ ws) = opt_scheme k s"
proof -
  have "andthen (lit ''https://'' (s @ ws)) k = andthen (lit ''https://'' s) k"
    using assms(1) literal_chars(1) assms(2) by (rule andthen_lit_stable)
  moreover have "andthen (lit ''http://'' (s @ ws)) k = andthen (lit ''http://'' s) k"
    using assms(1) literal_chars(2) assms(2) by (rule andthen_lit_stable)
  ultimately show ?thesis using assms(2) by (simp add: opt_scheme_def)
qed

lemma invite_link_stable:
  assumes "list_all is_space ws"
  shows "invite_link (s @ ws) = invite_link s"
proof -
  have c: "\<forall>r. invite_code (r @ ws) = invite_code r" by (simp add: invite_code_stable [OF assms])
  have "\<And>r. andthen (lit ''joinchat/'' (r @ ws)) invite_code = andthen (lit ''joinchat/'' r) invite_code"
    using assms literal_chars(4) c by (rule andthen_lit_stable)
  moreover have "\<And>r. andthen (lit ''+'' (r @ ws)) invite_code = andthen (lit ''+'' r) invite_code"
    using assms literal_chars(5) c by (rule andthen_lit_stable)
  ultimately have k: "\<forall>r. orelse (andthen (lit ''joinchat/'' (r @ ws)) invite_code)
                   (andthen (lit ''+'' (r @ ws)) invite_code)
          = orelse (andthen (lit ''joinchat/'' r) invite_code)
                   (andthen (lit ''+'' r) invite_code)"
    by simp
  show ?thesis
    unfolding invite_link_def using assms literal_chars(3) k by (rule andthen_lit_stable)
qed

lemma invite_at_stable:
  assumes "list_all is_space ws"
  shows "invite_at (s @ ws) = invite_at s"
proof -
  have c: "\<forall>r. invite_code (r @ ws) = invite_code r" by (simp add: invite_code_stable [OF assms])
  have l: "\<forall>r. invite_link (r @ ws) = invite_link r" by (simp add: invite_link_stable [OF assms])
  have "opt_scheme invite_link (s @ ws) = opt_scheme invite_link s"
    using assms l by (rule opt_scheme_stable)
  moreover have "andthen (lit ''tg://join?invite='' (s @ ws)) invite_code
      = andthen (lit ''tg://join?invite='' s) invite_code"
    using assms literal_chars(6) c by (rule andthen_lit_stable)
  ultimately show ?thesis by (simp add: invite_at_def)
qed

lemma username_at_stable:
  assumes "list_all is_space ws"
  shows "username_at (s @ ws) = username_at s"
proof -
  let ?k = "\<lambda>r. andthen (lit ''t.me/'' r) handle"
  have h: "\<forall>r. handle (r @ ws) = handle r" by (simp add: handle_stable [OF assms])
  have "\<And>r. ?k (r @ ws) = ?k r"
    using assms literal_chars(3) h by (rule andthen_lit_stable)
  then have l: "\<forall>r. ?k (r @ ws) = ?k r" by simp
  have "opt_scheme ?k (s @ ws) = opt_scheme ?k s"
    using assms l by (rule opt_scheme_stable)
  moreover have "andthen (lit ''@'' (s @ ws)) handle = andthen (lit ''@'' s) handle"
    using assms literal_chars(7) h by (rule andthen_lit_stable)
  ultimately show ?thesis by (simp add: username_at_def)
qed

lemma spaces_no_slash_at:
  assumes "list_all is_space ws"
  shows "CHR ''/'' \<notin> set ws" "CHR ''@'' \<notin> set ws"
  using assms not_space_lit_chars by (auto simp: list_all_iff)

lemma invite_search_stable:
  assumes "list_all is_space ws"
  shows "invite_search (s @ ws) = invite_search s"
proof (induction s)
  case Nil
  show ?case using invite_search_needs_slash [OF spaces_no_slash_at(1) [OF assms]]
    by (simp add: invite_at_needs_slash)
next
  case (Cons c s)
  have "invite_at ((c # s) @ ws) = invite_at (c # s)" using assms by (rule invite_at_stable)
  with Cons show ?case by simp
qed

lemma username_search_stable:
  assumes "list_all is_space ws"
  shows "username_search (s @ ws) = username_search s"
proof (induction s)
  case Nil
  show ?case
    using username_search_needs [OF spaces_no_slash_at [OF assms]]
    by (simp add: username_at_needs)
next
  case (Cons c s)
  have "username_at ((c # s) @ ws) = username_at (c # s)" using assms by (rule username_at_stable)
  with Cons show ?case by simp
qed

lemma invite_at_space: "is_space c \<Longrightarrow> invite_at (c # s) = None"
  using not_space_lit_chars
  by (auto simp: invite_at_def opt_scheme_def invite_link_def orelse_def andthen_def lower_char_space)

lemma username_at_space: "is_space c \<Longrightarrow> username_at (c # s) = None"
  using not_space_lit_chars
  by (auto simp: username_at_def opt_scheme_def orelse_def andthen_def lower_char_space)

lemma invite_search_leading: "invite_search (dropWhile is_space s) = invite_search s"
  by (induction s) (simp_all add: invite_at_space orelse_def)

lemma username_search_leading: "username_search (dropWhile is_space s) = username_search s"
  by (induction s) (simp_all add: username_at_space orelse_def)

lemma strip_decomp:
  "\<exists>ws. list_all is_space ws \<and> dropWhile is_space s = strip s @ ws"
proof -
  let ?u = "dropWhile is_space s"
  have "rev (dropWhile is_space (rev ?u)) @ rev (takeWhile is_space (rev ?u))
      = rev (takeWhile is_space (rev ?u) @ dropWhile is_space (rev ?u))"
    by (simp only: rev_append)
  also have "\<dots> = rev (rev ?u)" by (simp only: takeWhile_dropWhile_id)
  also have "\<dots> = ?u" by simp
  finally have "?u = strip s @ rev (takeWhile is_space (rev ?u))" by (simp add: strip_def)
  moreover have "list_all is_space (rev (takeWhile is_space (rev ?u)))"
    by (auto simp: list_all_iff dest: set_takeWhileD)
  ultimately show ?thesis by blast
qed

lemma invite_search_strip: "invite_search (strip s) = invite_search s"
proof -
  obtain ws where ws: "list_all is_space ws" "dropWhile is_space s = strip s @ ws"
    using strip_decomp by blast
  have "invite_search (strip s @ ws) = invite_search (strip s)"
    using ws(1) by (rule invite_search_stable)
  then show ?thesis using invite_search_leading [of s] ws(2) by simp
qed

lemma username_search_strip: "username_search (strip s) = username_search s"
proof -
  obtain ws where ws: "list_all is_space ws" "dropWhile is_space s = strip s @ ws"
    using strip_decomp by blast
  have "username_search (strip s @ ws) = username_search (strip s)"
    using ws(1) by (rule username_search_stable)
  then show ?thesis using username_search_leading [of s] ws(2) by simp
qed



text \<open>Stripping changes neither search, so the outcome is fixed by the raw string.\<close>

lemma username_search_Nil: "username_search [] = None"
  by (simp add: username_at_needs)

lemma parse_input_raw:
  "parse_input raw =
     (case invite_search raw of
        Some code \<Rightarrow> (''invite'', Some code)
      | None \<Rightarrow>
          (case username_search raw of
             Some name \<Rightarrow> (''username'', Some name)
           | None \<Rightarrow> (''unknown'', None)))"
proof (cases "strip raw = []")
  case True
  then have "invite_search raw = None" "username_search raw = None"
    using invite_search_strip [of raw] username_search_strip [of raw]
    by (simp_all add: invite_at_needs_slash username_at_needs)
  with True show ?thesis by (simp add: parse_input_def)
next
  case False
  then show ?thesis
    unfolding parse_input_def Let_def invite_search_strip username_search_strip by simp
qed

lemma expired_invite_matches:
  "invite_search expired_invite = Some ''AAAAAAAAAAAAAAAAAA''"
  "username_search expired_invite = Some ''joinchat''"
  unfolding expired_invite_def by code_simp+




text \<open>
  C6. For every raw string in which both patterns have a match, \<open>parse_input\<close> returns
  the kind \<open>invite\<close> with the code that the invite pattern captures, and never the kind
  \<open>username\<close>. (Every \<open>t.me/joinchat/\<close> link is such a string: the username pattern
  matches \<open>joinchat\<close> in it.)
\<close>

theorem invite_takes_precedence:
  "invite_search raw = Some code \<Longrightarrow> username_search raw = Some name \<Longrightarrow>
   parse_input raw = (''invite'', Some code) \<and> fst (parse_input raw) \<noteq> ''username''"
  by (simp add: parse_input_raw)

theorem invite_takes_precedence_witness:
  "invite_search expired_invite = Some ''AAAAAAAAAAAAAAAAAA''
   \<and> username_search expired_invite = Some ''joinchat''
   \<and> parse_input expired_invite = (''invite'', Some ''AAAAAAAAAAAAAAAAAA'')"
  using invite_takes_precedence [OF expired_invite_matches] expired_invite_matches by simp



end
